theory Spec2Isabelle
  imports Main "HOL-Library.AList"
begin

section \<open>Python values, exceptions and effects\<close>

text \<open>
  The values that travel between the engine and its callers: \<^verbatim>\<open>None\<close>, integers,
  strings, tuples and lists. Python's \<^verbatim>\<open>bool\<close> is a subclass of \<^verbatim>\<open>int\<close> with
  \<^verbatim>\<open>True == 1\<close> and \<^verbatim>\<open>False == 0\<close> (also as dictionary keys), so the two truth
  values are the integers one and zero here; equality of \<open>pyval\<close> is then Python's
  \<^verbatim>\<open>==\<close> on these values.
\<close>

datatype pyval =
    PyNone
  | PyInt int
  | PyStr string
  | PyTuple "pyval list"
  | PyList "pyval list"


text \<open>
  A raised exception (an instance of Python's \<^verbatim>\<open>Exception\<close>): the name of its class
  and its message.
\<close>

datatype exn = Exn string string



text \<open>Truth value testing, as \<^verbatim>\<open>or\<close>, \<^verbatim>\<open>if x\<close> and \<^verbatim>\<open>not x\<close> do it.\<close>

fun truthy :: "pyval \<Rightarrow> bool" where
  "truthy PyNone = False"
| "truthy (PyInt i) = (i \<noteq> 0)"
| "truthy (PyStr s) = (s \<noteq> [])"
| "truthy (PyTuple xs) = (xs \<noteq> [])"
| "truthy (PyList xs) = (xs \<noteq> [])"


section \<open>The engine interface (splitgraph/engine/__init__.py)\<close>

datatype ResultShape = NONE | ONE_ONE | ONE_MANY | MANY_ONE | MANY_MANY

text \<open>
  \<^verbatim>\<open>Engine.run_sql\<close> and \<^verbatim>\<open>Engine.get_primary_keys\<close> are abstract in the class
  (subclasses supply them), so an engine is given by these two methods. A call acts on
  the state \<open>'db\<close> of the backing database and either returns a value or raises; the
  state it leaves behind is kept in both cases.
\<close>

record 'db engine =
  run_sql :: "string \<Rightarrow> pyval list \<Rightarrow> ResultShape \<Rightarrow> 'db \<Rightarrow> (exn + pyval) \<times> 'db"
  get_primary_keys :: "string \<Rightarrow> string \<Rightarrow> 'db \<Rightarrow> (exn + pyval) \<times> 'db"

text \<open>
  \<^verbatim>\<open>run_sql_batch\<close>: the \<^verbatim>\<open>for\<close> loop over the argument sets. An exception of
  \<^verbatim>\<open>run_sql\<close> leaves the loop; the method returns nothing.
\<close>

fun run_sql_batch :: "'db engine \<Rightarrow> string \<Rightarrow> pyval list list \<Rightarrow> 'db \<Rightarrow> (exn + unit) \<times> 'db" where
  "run_sql_batch self statement [] db = (Inr (), db)"
| "run_sql_batch self statement (args # arguments) db =
     (case run_sql self statement args NONE db of
        (Inl e, db') \<Rightarrow> (Inl e, db')
      | (Inr r, db') \<Rightarrow> run_sql_batch self statement arguments db')"

text \<open>
  The batch as the specification words it: one invocation of \<^verbatim>\<open>run_sql\<close> per
  argument set, in the order of the sequence, each with the no-result shape. The
  invocations are chained from the left; once one has raised, no later one is made.
\<close>

definition invoke_next ::
  "'db engine \<Rightarrow> string \<Rightarrow> (exn + unit) \<times> 'db \<Rightarrow> pyval list \<Rightarrow> (exn + unit) \<times> 'db" where
  "invoke_next self statement so_far args =
     (case so_far of
        (Inl e, db) \<Rightarrow> (Inl e, db)
      | (Inr u, db) \<Rightarrow>
          (case run_sql self statement args NONE db of
             (Inl e, db') \<Rightarrow> (Inl e, db')
           | (Inr r, db') \<Rightarrow> (Inr (), db')))"

definition run_sql_once_per_argument_set ::
  "'db engine \<Rightarrow> string \<Rightarrow> pyval list list \<Rightarrow> 'db \<Rightarrow> (exn + unit) \<times> 'db" where
  "run_sql_once_per_argument_set self statement arguments db =
     foldl (invoke_next self statement) (Inr (), db) arguments"

definition tables_query :: string where
  "tables_query =
     ''SELECT table_name from information_schema.tables\<newline>                           WHERE table_schema = %s AND table_name = %s''"

definition table_exists :: "'db engine \<Rightarrow> string \<Rightarrow> string \<Rightarrow> 'db \<Rightarrow> (exn + bool) \<times> 'db" where
  "table_exists self schema table_name db =
     (case run_sql self tables_query [PyStr schema, PyStr (take 63 table_name)] ONE_ONE db of
        (Inl e, db') \<Rightarrow> (Inl e, db')
      | (Inr r, db') \<Rightarrow> (Inr (r \<noteq> PyNone), db'))"

definition column_names_types_query :: string where
  "column_names_types_query =
     ''SELECT column_name, data_type FROM information_schema.columns\<newline>                           WHERE table_schema = %s\<newline>                           AND table_name = %s''"

definition get_column_names_types :: "'db engine \<Rightarrow> string \<Rightarrow> string \<Rightarrow> 'db \<Rightarrow> (exn + pyval) \<times> 'db" where
  "get_column_names_types self schema table_name db =
     run_sql self column_names_types_query [PyStr schema, PyStr table_name] MANY_MANY db"

text \<open>
  \<^verbatim>\<open>get_change_key\<close>: Python's \<^verbatim>\<open>a or b\<close> evaluates \<^verbatim>\<open>a\<close>, returns it when it is
  truthy, and only otherwise evaluates and returns \<^verbatim>\<open>b\<close>.
\<close>

definition get_change_key :: "'db engine \<Rightarrow> string \<Rightarrow> string \<Rightarrow> 'db \<Rightarrow> (exn + pyval) \<times> 'db" where
  "get_change_key self schema table db =
     (case get_primary_keys self schema table db of
        (Inl e, db') \<Rightarrow> (Inl e, db')
      | (Inr pks, db') \<Rightarrow>
          if truthy pks then (Inr pks, db')
          else get_column_names_types self schema table db')"

text \<open>
  What it means for an engine to answer the table-existence query from a catalog
  \<open>cat\<close> of (schema, table name) pairs: the \<^verbatim>\<open>ONE_ONE\<close> result is the name when the
  pair is in the catalog and \<^verbatim>\<open>None\<close> when no row matches.
\<close>

definition answers_from_catalog :: "'db engine \<Rightarrow> 'db \<Rightarrow> (string \<times> string) set \<Rightarrow> bool" where
  "answers_from_catalog self db cat =
     (\<forall>s t. fst (run_sql self tables_query [PyStr s, PyStr t] ONE_ONE db) =
        Inr (if (s, t) \<in> cat then PyStr t else PyNone))"

text \<open>
  A catalog of columns lists (schema, table, column name, column type) rows. The
  (name, type) pairs of all the columns of a table, as a result set, are the rows of the
  catalog for that schema and table, in the catalog's order; an engine answers the column
  query from the catalog when that is its \<^verbatim>\<open>MANY_MANY\<close> result.
\<close>

definition columns_of :: "(string \<times> string \<times> string \<times> string) list \<Rightarrow> string \<Rightarrow> string \<Rightarrow> pyval" where
  "columns_of rows s t =
     PyList (map (\<lambda>(s', t', c, ty). PyTuple [PyStr c, PyStr ty])
               (filter (\<lambda>(s', t', c, ty). s' = s \<and> t' = t) rows))"

definition answers_columns_from ::
  "'db engine \<Rightarrow> 'db \<Rightarrow> (string \<times> string \<times> string \<times> string) list \<Rightarrow> bool" where
  "answers_columns_from self db cols =
     (\<forall>s t. fst (run_sql self column_names_types_query [PyStr s, PyStr t] MANY_MANY db) =
        Inr (columns_of cols s t))"

subsection \<open>An in-memory engine\<close>

text \<open>
  A small engine over an in-memory catalog, used to run the methods above on concrete
  inputs: it answers the two catalog queries from its tables, reports primary keys from
  its own list, and journals every other statement with its arguments and result shape,
  answering it from a table of prepared results (\<^verbatim>\<open>None\<close> when it has none).
\<close>

record memory_db =
  db_tables :: "(string \<times> string) list"
  db_columns :: "(string \<times> string \<times> string \<times> string) list"
  db_primary_keys :: "(string \<times> string \<times> string \<times> string) list"
  db_answers :: "(string \<times> pyval) list"
  db_journal :: "(string \<times> pyval list \<times> ResultShape) list"

definition memory_run_sql ::
  "string \<Rightarrow> pyval list \<Rightarrow> ResultShape \<Rightarrow> memory_db \<Rightarrow> (exn + pyval) \<times> memory_db" where
  "memory_run_sql statement args shape db =
     (if statement = tables_query \<and> shape = ONE_ONE then
        (case args of
           [PyStr s, PyStr t] \<Rightarrow>
             (Inr (if (s, t) \<in> set (db_tables db) then PyStr t else PyNone), db)
         | _ \<Rightarrow> (Inl (Exn ''ProgrammingError'' ''bad arguments''), db))
      else if statement = column_names_types_query \<and> shape = MANY_MANY then
        (case args of
           [PyStr s, PyStr t] \<Rightarrow> (Inr (columns_of (db_columns db) s t), db)
         | _ \<Rightarrow> (Inl (Exn ''ProgrammingError'' ''bad arguments''), db))
      else if statement = [] then
        (Inl (Exn ''ProgrammingError'' ''empty query''), db)
      else
        (Inr (case map_of (db_answers db) statement of Some r \<Rightarrow> r | None \<Rightarrow> PyNone),
         db\<lparr>db_journal := db_journal db @ [(statement, args, shape)]\<rparr>))"

definition memory_engine :: "memory_db engine" where
  "memory_engine =
     \<lparr> run_sql = memory_run_sql,
       get_primary_keys = (\<lambda>s t db. (Inr (columns_of (db_primary_keys db) s t), db)) \<rparr>"

definition fruit_db :: memory_db where
  "fruit_db =
     \<lparr> db_tables = [(''public'', ''fruits''), (''public'', replicate 63 CHR ''x'')],
       db_columns = [(''public'', ''fruits'', ''fruit_id'', ''integer''),
                     (''public'', ''fruits'', ''name'', ''character varying''),
                     (''public'', ''vegetables'', ''vegetable_id'', ''integer''),
                     (''public'', ''vegetables'', ''name'', ''character varying'')],
       db_primary_keys = [(''public'', ''fruits'', ''fruit_id'', ''integer'')],
       db_answers = [],
       db_journal = [] \<rparr>"


section \<open>Table schemas (splitgraph/core/types.py, as the sources use it)\<close>

text \<open>
  \<^verbatim>\<open>TableColumn\<close> is a named tuple built positionally as
  \<^verbatim>\<open>TableColumn(ordinal, name, pg_type, is_pk)\<close> and read through \<^verbatim>\<open>.name\<close>,
  \<^verbatim>\<open>.pg_type\<close>, \<^verbatim>\<open>.ordinal\<close> and \<^verbatim>\<open>.comment\<close> (absent unless given). A table
  schema is a list of columns.
\<close>

record TableColumn =
  ordinal :: int
  name :: string
  pg_type :: string
  is_pk :: bool
  comment :: "string option"

type_synonym TableSchema = "TableColumn list"


section \<open>MongoDataSource.get_table_schema (splitgraph/hooks/data_source/fdw.py)\<close>

text \<open>
  The method returns the schema as it is when a column is named \<^verbatim>\<open>_id\<close>; otherwise it
  reads the last column, \<^verbatim>\<open>table_schema[-1]\<close>, which raises \<^verbatim>\<open>IndexError\<close> on an empty
  list, and appends the \<^verbatim>\<open>_id\<close> column.
\<close>

definition MongoDataSource_get_table_schema :: "string \<Rightarrow> TableSchema \<Rightarrow> exn + TableSchema" where
  "MongoDataSource_get_table_schema table_name table_schema =
     (if list_ex (\<lambda>c. name c = ''_id'') table_schema then Inr table_schema
      else if table_schema = [] then Inl (Exn ''IndexError'' ''list index out of range'')
      else Inr (table_schema @
             [\<lparr> ordinal = ordinal (last table_schema) + 1, name = ''_id'',
                pg_type = ''NAME'', is_pk = False, comment = None \<rparr>]))"


section \<open>Singer ingestion: _make_changeset (splitgraph/ingestion/singer/_utils.py)\<close>

subsection \<open>Composable SQL (psycopg2.sql)\<close>

datatype composable = SQL string | Identifier string | Composed "composable list"















subsection \<open>The change key of a schema\<close>


subsection \<open>The query and the changeset\<close>














definition fruits_schema :: TableSchema where
  "fruits_schema =
     [\<lparr> ordinal = 1, name = ''fruit_id'', pg_type = ''integer'', is_pk = True, comment = None \<rparr>,
      \<lparr> ordinal = 2, name = ''name'', pg_type = ''character varying'', is_pk = False, comment = None \<rparr>]"












section \<open>CSV foreign data wrapper: import_schema (splitgraph/ingestion/csv/fdw.py)\<close>




























subsection \<open>A bucket with three objects\<close>



section \<open>Build-script preprocessing (splitgraph/splitfile/_parsing.py)\<close>

text \<open>
  Modelled from the spec: \<^verbatim>\<open>preprocess\<close> of \<^verbatim>\<open>splitgraph.splitfile._parsing\<close> is not
  among the source files (only its tests are). The specification: a preprocessing pass
  substitutes \<^verbatim>\<open>${NAME}\<close> placeholders, honoring backslash-escaping to suppress
  substitution, and fails listing every referenced-but-unbound parameter name if any
  remain, ignoring escaped placeholders. A placeholder is read as \<^verbatim>\<open>${\<close>, a non-empty
  name without \<^verbatim>\<open>}\<close>, and \<^verbatim>\<open>}\<close>; it is escaped when a backslash stands directly
  before it. The script is cut into pieces from the left: escaped placeholders,
  placeholders, and single characters of text.
\<close>

datatype piece = Text char | Placeholder string | Escaped string

definition placeholder_at :: "string \<Rightarrow> (string \<times> string) option" where
  "placeholder_at s =
     (case s of
        c # d # rest \<Rightarrow>
          if c = CHR ''$'' \<and> d = CHR ''{'' \<and> takeWhile (\<lambda>x. x \<noteq> CHR ''}'') rest \<noteq> []
             \<and> dropWhile (\<lambda>x. x \<noteq> CHR ''}'') rest \<noteq> []
          then Some (takeWhile (\<lambda>x. x \<noteq> CHR ''}'') rest, tl (dropWhile (\<lambda>x. x \<noteq> CHR ''}'') rest))
          else None
      | _ \<Rightarrow> None)"

function pieces :: "string \<Rightarrow> piece list" where
  "pieces [] = []"
| "pieces (c # s) =
     (case (if c = CHR 0x5C then placeholder_at s else None) of
        Some (n, rest) \<Rightarrow> Escaped n # pieces rest
      | None \<Rightarrow>
          (case placeholder_at (c # s) of
             Some (n, rest) \<Rightarrow> Placeholder n # pieces rest
           | None \<Rightarrow> Text c # pieces s))"
  by pat_completeness auto
termination
proof (relation "measure length")
  show "wf (measure length)" by simp
next
  fix c s x2 x y
  assume "(if c = CHR 0x5C then placeholder_at s else None) = Some x2" and "(x, y) = x2"
  then have "placeholder_at s = Some (x, y)"
    by (simp split: if_splits)
  then have "length y \<le> length s"
    using length_dropWhile_le [of "\<lambda>x. x \<noteq> CHR ''}''" "drop 2 s"]
    by (auto simp: placeholder_at_def split: list.splits if_splits)
  then show "(y, c # s) \<in> measure length" by simp
next
  fix c s x2 x y
  assume "placeholder_at (c # s) = Some x2" and "(x, y) = x2"
  then have "placeholder_at (c # s) = Some (x, y)" by simp
  then have "length y \<le> length s"
    using length_dropWhile_le [of "\<lambda>x. x \<noteq> CHR ''}''" "drop 1 s"]
    by (auto simp: placeholder_at_def split: list.splits if_splits)
  then show "(y, c # s) \<in> measure length" by simp
next
  fix c s
  show "(s, c # s) \<in> measure length" by simp
qed

declare pieces.simps [simp del]

text \<open>
  Modelled from the spec: the substitution. A placeholder is replaced by the value
  bound to its name, an escaped placeholder is written without its backslash, text is
  copied; the unbound names are those of the placeholders without a binding, each
  listed once.
\<close>

fun render :: "(string \<times> string) list \<Rightarrow> piece \<Rightarrow> string" where
  "render params (Text c) = [c]"
| "render params (Escaped n) = ''${'' @ n @ ''}''"
| "render params (Placeholder n) = (case map_of params n of Some v \<Rightarrow> v | None \<Rightarrow> [])"

fun referenced :: "piece list \<Rightarrow> string list" where
  "referenced [] = []"
| "referenced (Placeholder n # ps) = n # referenced ps"
| "referenced (p # ps) = referenced ps"

definition unbound :: "(string \<times> string) list \<Rightarrow> string \<Rightarrow> string list" where
  "unbound params commands =
     remdups (filter (\<lambda>n. map_of params n = None) (referenced (pieces commands)))"

text \<open>
  Modelled from the spec: \<^verbatim>\<open>preprocess(commands, params)\<close>. The error carries the
  list of the unbound parameter names.
\<close>

definition preprocess :: "string \<Rightarrow> (string \<times> string) list \<Rightarrow> string list + string" where
  "preprocess commands params =
     (if unbound params commands = [] then Inr (concat (map (render params) (pieces commands)))
      else Inl (unbound params commands))"

definition import_line :: string where
  "import_line =
     ''FROM test/pg_mount:${TAG} IMPORT {SELECT '' @ [CHR 0x5C] @ ''${ESCAPED}} AS t''"


section \<open>The versioning core, modelled from the specification\<close>

subsection \<open>Objects and their application\<close>

text \<open>
  Modelled from the spec: the diff engine of \<^verbatim>\<open>splitgraph.core\<close> is not among the
  source files. A change to a table is keyed by the row's change key (the values of the
  primary-key columns, or the whole row if the table has none) and is an insert or
  update of the whole row, or a delete. A changeset keeps the latest change per key. An
  object is an immutable changeset; its id is a content hash of the changeset, so the id
  is represented by the changeset it is computed from: equal changesets have equal ids,
  different changesets different ones.
\<close>

type_synonym row = "pyval list"

datatype change = Upsert row | Delete

type_synonym diff = "(row \<times> change) list"

datatype object_id = ObjectHash diff

fun object_changes :: "object_id \<Rightarrow> diff" where
  "object_changes (ObjectHash d) = d"

definition key_of :: "TableSchema \<Rightarrow> row \<Rightarrow> row" where
  "key_of schema r =
     (if list_ex is_pk schema then map snd (filter (\<lambda>cv. is_pk (fst cv)) (zip schema r)) else r)"

text \<open>
  Modelled from the spec: \<^verbatim>\<open>freeze\<close> turns rows captured as inserts into an object, and
  \<^verbatim>\<open>apply\<close> replays an object onto a materialized table: inserts and updates as
  per-key upserts, deletes as per-key removals; objects are applied oldest to newest.
\<close>

definition record_change :: "diff \<Rightarrow> row \<times> change \<Rightarrow> diff" where
  "record_change d kc = AList.update (fst kc) (snd kc) d"

definition freeze_rows :: "TableSchema \<Rightarrow> row list \<Rightarrow> object_id" where
  "freeze_rows schema rows =
     ObjectHash (foldl record_change [] (map (\<lambda>r. (key_of schema r, Upsert r)) rows))"

fun apply_change :: "TableSchema \<Rightarrow> row list \<Rightarrow> row \<times> change \<Rightarrow> row list" where
  "apply_change schema rows (k, Delete) = filter (\<lambda>r. key_of schema r \<noteq> k) rows"
| "apply_change schema rows (k, Upsert new) =
     (if list_ex (\<lambda>r. key_of schema r = k) rows
      then map (\<lambda>r. if key_of schema r = k then new else r) rows
      else rows @ [new])"

definition apply_object :: "TableSchema \<Rightarrow> row list \<Rightarrow> object_id \<Rightarrow> row list" where
  "apply_object schema rows obj = foldl (apply_change schema) rows (object_changes obj)"

subsection \<open>Images and repositories\<close>

text \<open>
  Modelled from the spec: the build-script commands (\<^verbatim>\<open>splitgraph.splitfile\<close> is not
  among the source files): select a base image, import named tables, optionally
  transformed by an inline query, from an image of a source repository, and run a
  relational statement. An image is referred to by namespace, repository and tag or
  hash. The parsed command stands for its post-substitution text.
\<close>

type_synonym image_ref = "string \<times> string \<times> string"

datatype table_source = Table string | Query string

datatype command =
    FROM image_ref
  | IMPORT image_ref "(table_source \<times> string) list"
  | SQL string

text \<open>
  Modelled from the spec: the commit graph of \<^verbatim>\<open>splitgraph.core\<close> (not among the
  source files). A table entry is a column schema with the ordered list of objects whose
  application reconstructs the table. An image has a hash, a parent, a comment, a
  provenance list and its tables; the hash is a deterministic function of parent, table
  contents, provenance and comment, represented by these four, with a constant for the
  all-zero hash of the empty root. A provenance entry records the step and the source
  images (namespace, repository, image hash) it read. Creation times are left out.
\<close>

record table_entry =
  te_schema :: TableSchema
  te_objects :: "object_id list"

datatype digest =
    RootHash
  | ImageHash digest "(string \<times> table_entry) list" "provenance list" string
and provenance =
    Provenance command "(string \<times> string \<times> digest) list"

record image =
  img_hash :: digest
  img_parent :: "digest option"
  img_comment :: string
  img_provenance :: "provenance list"
  img_tables :: "(string \<times> table_entry) list"

definition root_image :: image where
  "root_image =
     \<lparr> img_hash = RootHash, img_parent = None, img_comment = [], img_provenance = [],
       img_tables = [] \<rparr>"

definition new_image :: "digest \<Rightarrow> (string \<times> table_entry) list \<Rightarrow> provenance list \<Rightarrow> string \<Rightarrow> image" where
  "new_image parent entries prov msg =
     \<lparr> img_hash = ImageHash parent entries prov msg, img_parent = Some parent,
       img_comment = msg, img_provenance = prov, img_tables = entries \<rparr>"

text \<open>
  Modelled from the spec: a repository owns its images and has a checkout pointer
  \<^verbatim>\<open>HEAD\<close>; the object store lists the known objects; the checkout holds the
  materialized tables, each with its schema, its rows and the pending changes recorded
  since the last commit. Tags are left out.
\<close>

record working_table =
  wt_schema :: TableSchema
  wt_rows :: "row list"
  wt_pending :: diff

record repository =
  repo_images :: "image list"
  HEAD :: digest
  repo_objects :: "object_id list"
  repo_checkout :: "(string \<times> working_table) list"

definition init_repository :: repository where
  "init_repository =
     \<lparr> repo_images = [root_image], HEAD = RootHash, repo_objects = [], repo_checkout = [] \<rparr>"

definition by_hash :: "image list \<Rightarrow> digest \<Rightarrow> image option" where
  "by_hash imgs h = find (\<lambda>i. img_hash i = h) imgs"

definition tables_at :: "image list \<Rightarrow> digest \<Rightarrow> (string \<times> table_entry) list" where
  "tables_at imgs h = (case by_hash imgs h of Some i \<Rightarrow> img_tables i | None \<Rightarrow> [])"

definition provenance_at :: "image list \<Rightarrow> digest \<Rightarrow> provenance list" where
  "provenance_at imgs h = (case by_hash imgs h of Some i \<Rightarrow> img_provenance i | None \<Rightarrow> [])"

definition add_objects :: "object_id list \<Rightarrow> object_id list \<Rightarrow> object_id list" where
  "add_objects store new = store @ filter (\<lambda>obj. obj \<notin> set store) (remdups new)"

subsection \<open>Tracked changes, commit, checkout and log\<close>

text \<open>
  Modelled from the spec: a tracked table records every insert, update and delete keyed
  by the change key, the latest change per key.
\<close>

definition create_table :: "string \<Rightarrow> TableSchema \<Rightarrow> repository \<Rightarrow> repository" where
  "create_table table schema repo =
     repo\<lparr>repo_checkout :=
       AList.update table \<lparr> wt_schema = schema, wt_rows = [], wt_pending = [] \<rparr> (repo_checkout repo)\<rparr>"

definition write_change :: "string \<Rightarrow> change \<Rightarrow> row \<Rightarrow> repository \<Rightarrow> repository" where
  "write_change table c k repo =
     (case map_of (repo_checkout repo) table of
        None \<Rightarrow> repo
      | Some wt \<Rightarrow>
          repo\<lparr>repo_checkout :=
            AList.update table
              (wt\<lparr>wt_rows := apply_change (wt_schema wt) (wt_rows wt) (k, c),
                  wt_pending := record_change (wt_pending wt) (k, c)\<rparr>)
              (repo_checkout repo)\<rparr>)"

definition insert_row :: "string \<Rightarrow> row \<Rightarrow> repository \<Rightarrow> repository" where
  "insert_row table r repo =
     (case map_of (repo_checkout repo) table of
        None \<Rightarrow> repo
      | Some wt \<Rightarrow> write_change table (Upsert r) (key_of (wt_schema wt) r) repo)"

text \<open>
  Modelled from the spec: \<^verbatim>\<open>commit\<close> freezes the pending changes of every dirty table
  into a new object, builds an image whose table entries are the parent's object lists
  with the new objects appended, computes its hash, persists it, advances \<^verbatim>\<open>HEAD\<close> and
  discards the pending changes.
\<close>

definition committed_entry :: "(string \<times> table_entry) list \<Rightarrow> string \<times> working_table \<Rightarrow> string \<times> table_entry" where
  "committed_entry parent_tables t =
     (fst t,
      \<lparr> te_schema = wt_schema (snd t),
        te_objects =
          (case map_of parent_tables (fst t) of Some e \<Rightarrow> te_objects e | None \<Rightarrow> []) @
          (if wt_pending (snd t) = [] then [] else [ObjectHash (wt_pending (snd t))]) \<rparr>)"

definition new_objects_of :: "(string \<times> working_table) list \<Rightarrow> object_id list" where
  "new_objects_of checkout =
     map (\<lambda>t. ObjectHash (wt_pending (snd t))) (filter (\<lambda>t. wt_pending (snd t) \<noteq> []) checkout)"

definition commit_image ::
  "image list \<Rightarrow> digest \<Rightarrow> (string \<times> working_table) list \<Rightarrow> provenance list \<Rightarrow> string \<Rightarrow> image" where
  "commit_image imgs parent checkout prov msg =
     new_image parent (map (committed_entry (tables_at imgs parent)) checkout) prov msg"

definition commit :: "string \<Rightarrow> repository \<Rightarrow> repository" where
  "commit msg repo =
     (let img = commit_image (repo_images repo) (HEAD repo) (repo_checkout repo) [] msg
      in repo\<lparr>repo_images := repo_images repo @ [img],
              HEAD := img_hash img,
              repo_objects := add_objects (repo_objects repo) (new_objects_of (repo_checkout repo)),
              repo_checkout := map (\<lambda>t. (fst t, (snd t)\<lparr>wt_pending := []\<rparr>)) (repo_checkout repo)\<rparr>)"

text \<open>
  Modelled from the spec: \<^verbatim>\<open>checkout\<close> materializes the tables of an image by applying
  the objects of each table entry in order, and discards pending changes; an unknown
  image is an error. \<^verbatim>\<open>log\<close> walks \<^verbatim>\<open>parent_id\<close> back to the root; a history has at
  most as many images as the repository, which bounds the walk.
\<close>

definition materialize :: "table_entry \<Rightarrow> row list" where
  "materialize e = foldl (apply_object (te_schema e)) [] (te_objects e)"

definition materialized :: "(string \<times> table_entry) list \<Rightarrow> (string \<times> working_table) list" where
  "materialized entries =
     map (\<lambda>t. (fst t, \<lparr> wt_schema = te_schema (snd t), wt_rows = materialize (snd t),
                         wt_pending = [] \<rparr>)) entries"

definition checkout :: "digest \<Rightarrow> repository \<Rightarrow> exn + repository" where
  "checkout h repo =
     (case by_hash (repo_images repo) h of
        None \<Rightarrow> Inl (Exn ''ReferenceError'' ''unknown image'')
      | Some i \<Rightarrow> Inr (repo\<lparr>HEAD := h, repo_checkout := materialized (img_tables i)\<rparr>))"

text \<open>
  The rows of a table of the checkout; a table that is not in the checkout has none to
  read, which is \<open>None\<close> and not the empty list of rows.
\<close>

definition rows_of :: "repository \<Rightarrow> string \<Rightarrow> row list option" where
  "rows_of repo table = map_option wt_rows (map_of (repo_checkout repo) table)"

fun log_from :: "nat \<Rightarrow> image list \<Rightarrow> digest \<Rightarrow> image list" where
  "log_from 0 imgs h = []"
| "log_from (Suc n) imgs h =
     (case by_hash imgs h of
        None \<Rightarrow> []
      | Some i \<Rightarrow> i # (case img_parent i of None \<Rightarrow> [] | Some p \<Rightarrow> log_from n imgs p))"

definition get_log :: "repository \<Rightarrow> digest \<Rightarrow> image list" where
  "get_log repo h = log_from (length (repo_images repo)) (repo_images repo) h"

subsection \<open>The build engine\<close>

text \<open>
  Modelled from the spec: what the build engine consumes from outside the output
  repository: the resolution of an image reference to an image of a source repository
  (unknown and ambiguous references are errors), the execution of an import query
  against the materialized tables of the source image, giving a schema and rows, and the
  execution of a statement on the tracked checkout of the current image, giving the
  checkout with its recorded changes. Each may fail.
\<close>

record build_env =
  resolve :: "image_ref \<Rightarrow> exn + image"
  run_query :: "string \<Rightarrow> (string \<times> working_table) list \<Rightarrow> exn + TableSchema \<times> row list"
  run_statement :: "string \<Rightarrow> (string \<times> working_table) list \<Rightarrow> exn + (string \<times> working_table) list"

text \<open>
  Modelled from the spec: importing one table. Without a query the new table entry is
  the source table's entry, objects included; with a query the query is executed and its
  result captured as one new object.
\<close>

definition import_table ::
  "build_env \<Rightarrow> image \<Rightarrow> table_source \<times> string \<Rightarrow> exn + (string \<times> table_entry) \<times> object_id list" where
  "import_table env source t =
     (case fst t of
        Table n \<Rightarrow>
          (case map_of (img_tables source) n of
             None \<Rightarrow> Inl (Exn ''SchemaError'' n)
           | Some e \<Rightarrow> Inr ((snd t, e), []))
      | Query q \<Rightarrow>
          (case run_query env q (materialized (img_tables source)) of
             Inl e \<Rightarrow> Inl e
           | Inr (schema, rows) \<Rightarrow>
               Inr ((snd t, \<lparr> te_schema = schema, te_objects = [freeze_rows schema rows] \<rparr>),
                    [freeze_rows schema rows])))"

fun import_tables ::
  "build_env \<Rightarrow> image \<Rightarrow> (table_source \<times> string) list \<Rightarrow> (string \<times> table_entry) list \<Rightarrow> object_id list
     \<Rightarrow> exn + (string \<times> table_entry) list \<times> object_id list" where
  "import_tables env source [] entries new = Inr (entries, new)"
| "import_tables env source (t # ts) entries new =
     (case import_table env source t of
        Inl e \<Rightarrow> Inl e
      | Inr (entry, objs) \<Rightarrow>
          import_tables env source ts (AList.update (fst entry) (snd entry) entries) (new @ objs))"

text \<open>
  Modelled from the spec: the source images a step reads, resolved; a statement reads
  none here.
\<close>

definition resolve_sources :: "build_env \<Rightarrow> command \<Rightarrow> exn + (image_ref \<times> image) list" where
  "resolve_sources env cmd =
     (case cmd of
        IMPORT ref ts \<Rightarrow> (case resolve env ref of Inl e \<Rightarrow> Inl e | Inr i \<Rightarrow> Inr [(ref, i)])
      | _ \<Rightarrow> Inr [])"

definition source_hashes :: "(image_ref \<times> image) list \<Rightarrow> (string \<times> string \<times> digest) list" where
  "source_hashes sources =
     map (\<lambda>s. (fst (fst s), fst (snd (fst s)), img_hash (snd s))) sources"

text \<open>
  Modelled from the spec: a step's cache key is derived from the command text, the
  resolved hashes of the source images it reads and the current output \<^verbatim>\<open>HEAD\<close>. An
  image has that key when it is a child of \<^verbatim>\<open>HEAD\<close> and the last entry of its
  provenance records that command and those sources.
\<close>

definition has_key :: "command \<Rightarrow> (string \<times> string \<times> digest) list \<Rightarrow> digest \<Rightarrow> image \<Rightarrow> bool" where
  "has_key cmd hashes h i =
     (img_parent i = Some h \<and> img_provenance i \<noteq> [] \<and>
      last (img_provenance i) = Provenance cmd hashes)"

text \<open>
  Modelled from the spec: building the image of a step that is not cached. The
  provenance of the result is that of the current image with the step's entry appended.
\<close>

definition build ::
  "build_env \<Rightarrow> command \<Rightarrow> (image_ref \<times> image) list \<Rightarrow> repository \<Rightarrow> exn + image \<times> object_id list" where
  "build env cmd sources repo =
     (let prov = provenance_at (repo_images repo) (HEAD repo) @ [Provenance cmd (source_hashes sources)];
          current = tables_at (repo_images repo) (HEAD repo)
      in case cmd of
           IMPORT ref ts \<Rightarrow>
             (case sources of
                [] \<Rightarrow> Inl (Exn ''ReferenceError'' ''no source image'')
              | s # rest \<Rightarrow>
                  (case import_tables env (snd s) ts current [] of
                     Inl e \<Rightarrow> Inl e
                   | Inr (entries, new) \<Rightarrow> Inr (new_image (HEAD repo) entries prov [], new)))
         | SQL stmt \<Rightarrow>
             (case run_statement env stmt (materialized current) of
                Inl e \<Rightarrow> Inl e
              | Inr changed \<Rightarrow>
                  Inr (commit_image (repo_images repo) (HEAD repo) changed prov [],
                       new_objects_of changed))
         | FROM ref \<Rightarrow> Inl (Exn ''SplitfileError'' ''not an image-producing step''))"

text \<open>
  Modelled from the spec: one step of \<^verbatim>\<open>execute\<close>. Selecting a base image makes it
  the current image of the output repository. For the other commands, if an image with
  the step's key already exists as a child of the current \<^verbatim>\<open>HEAD\<close>, the step is skipped
  and that image reused; otherwise the step is executed and its image committed. A
  failure commits nothing.
\<close>

definition step :: "build_env \<Rightarrow> command \<Rightarrow> repository \<Rightarrow> (exn + unit) \<times> repository" where
  "step env cmd repo =
     (case cmd of
        FROM ref \<Rightarrow>
          (case resolve env ref of
             Inl e \<Rightarrow> (Inl e, repo)
           | Inr i \<Rightarrow>
               (Inr (),
                repo\<lparr>repo_images :=
                        (if by_hash (repo_images repo) (img_hash i) = None
                         then repo_images repo @ [i] else repo_images repo),
                     HEAD := img_hash i\<rparr>))
      | _ \<Rightarrow>
          (case resolve_sources env cmd of
             Inl e \<Rightarrow> (Inl e, repo)
           | Inr sources \<Rightarrow>
               (case find (has_key cmd (source_hashes sources) (HEAD repo)) (repo_images repo) of
                  Some i \<Rightarrow> (Inr (), repo\<lparr>HEAD := img_hash i\<rparr>)
                | None \<Rightarrow>
                    (case build env cmd sources repo of
                       Inl e \<Rightarrow> (Inl e, repo)
                     | Inr (i, new) \<Rightarrow>
                         (Inr (),
                          repo\<lparr>repo_images := repo_images repo @ [i],
                               HEAD := img_hash i,
                               repo_objects := add_objects (repo_objects repo) new\<rparr>)))))"

text \<open>
  Modelled from the spec: \<^verbatim>\<open>execute\<close> folds the commands into steps; a failing step
  aborts the run, and the images committed by earlier steps remain.
\<close>

fun execute :: "build_env \<Rightarrow> command list \<Rightarrow> repository \<Rightarrow> (exn + unit) \<times> repository" where
  "execute env [] repo = (Inr (), repo)"
| "execute env (cmd # cmds) repo =
     (case step env cmd repo of
        (Inl e, repo') \<Rightarrow> (Inl e, repo')
      | (Inr u, repo') \<Rightarrow> execute env cmds repo')"



definition captured_objects :: "build_env \<Rightarrow> image \<Rightarrow> (table_source \<times> string) list \<Rightarrow> object_id list" where
  "captured_objects env source ts =
     concat (map (\<lambda>t. case fst t of
                         Table n \<Rightarrow> []
                       | Query q \<Rightarrow>
                           (case run_query env q (materialized (img_tables source)) of
                              Inl e \<Rightarrow> []
                            | Inr (schema, rows) \<Rightarrow> [freeze_rows schema rows])) ts)"


subsection \<open>Two commits of one table, and a source repository to import from\<close>

definition my_fruits_schema :: TableSchema where
  "my_fruits_schema =
     [\<lparr> ordinal = 1, name = ''id'', pg_type = ''integer'', is_pk = False, comment = None \<rparr>,
      \<lparr> ordinal = 2, name = ''name'', pg_type = ''character varying'', is_pk = False, comment = None \<rparr>]"

definition first_commit :: repository where
  "first_commit =
     commit ''commit 1''
       (insert_row ''my_fruits'' [PyInt 1, PyStr ''pineapple'']
          (create_table ''my_fruits'' my_fruits_schema init_repository))"

definition second_commit :: repository where
  "second_commit =
     commit ''commit 2'' (insert_row ''my_fruits'' [PyInt 2, PyStr ''banana''] first_commit)"

text \<open>
  A source repository \<^verbatim>\<open>test/pg_mount\<close> that commits the table \<^verbatim>\<open>fruits\<close> with two
  rows; its image \<^verbatim>\<open>latest\<close> is that commit, which holds the table as a single
  object. An environment that resolves the image and answers two queries on it, and an
  output repository sharing the object store of the source.
\<close>

definition source_repository :: repository where
  "source_repository =
     commit ''fruits''
       (insert_row ''fruits'' [PyInt 2, PyStr ''orange'']
          (insert_row ''fruits'' [PyInt 1, PyStr ''apple'']
             (create_table ''fruits'' my_fruits_schema init_repository)))"

definition source_image :: image where
  "source_image = last (repo_images source_repository)"

definition fruit_env :: build_env where
  "fruit_env =
     \<lparr> resolve = (\<lambda>ref.
          if ref = (''test'', ''pg_mount'', ''latest'') then Inr source_image
          else Inl (Exn ''ReferenceError'' ''unknown image'')),
       run_query = (\<lambda>q checkout.
          case map_of checkout ''fruits'' of
            None \<Rightarrow> Inl (Exn ''DatabaseError'' ''relation fruits does not exist'')
          | Some wt \<Rightarrow>
              if q = ''SELECT * FROM fruits'' then Inr (wt_schema wt, wt_rows wt)
              else if q = ''SELECT * FROM fruits WHERE id = 2''
              then Inr (wt_schema wt, filter (\<lambda>r. take 1 r = [PyInt 2]) (wt_rows wt))
              else Inl (Exn ''DatabaseError'' ''syntax error'')),
       run_statement = (\<lambda>stmt checkout. Inl (Exn ''DatabaseError'' ''syntax error'')) \<rparr>"

definition output_repository :: repository where
  "output_repository = init_repository\<lparr>repo_objects := repo_objects source_repository\<rparr>"


definition import_script :: "command list" where
  "import_script =
     [IMPORT (''test'', ''pg_mount'', ''latest'')
        [(Table ''fruits'', ''my_fruits''),
         (Query ''SELECT * FROM fruits WHERE id = 2'', ''oranges'')]]"



section \<open>Theorems\<close>

subsection \<open>Engine.run_sql_batch\<close>

lemma foldl_invoke_next_raised:
  "foldl (invoke_next self statement) (Inl e, db) arguments = (Inl e, db)"
  by (induction arguments) (simp_all add: invoke_next_def)

lemma foldl_invoke_next_Cons:
  "foldl (invoke_next self statement) (Inr (), db) (args # arguments) =
     (case run_sql self statement args NONE db of
        (Inl e, db') \<Rightarrow> (Inl e, db')
      | (Inr r, db') \<Rightarrow> foldl (invoke_next self statement) (Inr (), db') arguments)"
  by (simp add: invoke_next_def foldl_invoke_next_raised split: prod.splits sum.splits)

text \<open>
  C7. Batch execution equivalence: for every statement and every finite sequence of
  argument sets, \<^verbatim>\<open>run_sql_batch\<close> has the same effect (returned value or raised
  exception, and database state) as invoking \<^verbatim>\<open>run_sql\<close> once per argument set, in
  sequence order, each with the no-result shape.
\<close>

theorem run_sql_batch_is_sequence_of_run_sql:
  "run_sql_batch self statement arguments db =
     run_sql_once_per_argument_set self statement arguments db"
  unfolding run_sql_once_per_argument_set_def
proof (induction arguments arbitrary: db)
  case Nil
  show ?case by simp
next
  case (Cons args arguments)
  show ?case
    by (simp only: run_sql_batch.simps foldl_invoke_next_Cons Cons.IH)
qed

theorem run_sql_batch_is_sequence_of_run_sql_witness:
  "run_sql_once_per_argument_set memory_engine ''INSERT INTO fruits VALUES (%s, %s)''
     [[PyInt 1, PyStr ''apple''], [PyInt 2, PyStr ''orange'']] fruit_db =
   (Inr (), fruit_db\<lparr>db_journal :=
      [(''INSERT INTO fruits VALUES (%s, %s)'', [PyInt 1, PyStr ''apple''], NONE),
       (''INSERT INTO fruits VALUES (%s, %s)'', [PyInt 2, PyStr ''orange''], NONE)]\<rparr>)"
  unfolding run_sql_batch_is_sequence_of_run_sql [symmetric]
  by (simp add: memory_engine_def memory_run_sql_def tables_query_def
      column_names_types_query_def fruit_db_def)

subsection \<open>Engine.table_exists\<close>

text \<open>
  C8. For every schema and table name, \<^verbatim>\<open>table_exists\<close> asks the catalog about the
  first 63 characters of the name only: it runs the catalog query once, with the schema
  and those characters, raises what the query raises and otherwise answers whether the
  query's result is not \<^verbatim>\<open>None\<close>. So its outcome for a name is its outcome for the
  name's first 63 characters, two names that agree on their first 63 characters are
  indistinguishable to it, and when the engine answers the catalog query from a catalog,
  a name of any length is reported to exist if and only if the catalog holds a table of
  that schema named by its first 63 characters.
\<close>

theorem table_exists_first_63_characters:
  "(table_exists self schema n db =
      (case run_sql self tables_query [PyStr schema, PyStr (take 63 n)] ONE_ONE db of
         (Inl e, db') \<Rightarrow> (Inl e, db')
       | (Inr r, db') \<Rightarrow> (Inr (r \<noteq> PyNone), db'))) \<and>
   table_exists self schema n db = table_exists self schema (take 63 n) db \<and>
   (take 63 n = take 63 n' \<longrightarrow>
      table_exists self schema n db = table_exists self schema n' db) \<and>
   (answers_from_catalog self db cat \<longrightarrow>
      fst (table_exists self schema n db) = Inr ((schema, take 63 n) \<in> cat))"
proof (intro conjI impI)
  show "table_exists self schema n db =
      (case run_sql self tables_query [PyStr schema, PyStr (take 63 n)] ONE_ONE db of
         (Inl e, db') \<Rightarrow> (Inl e, db')
       | (Inr r, db') \<Rightarrow> (Inr (r \<noteq> PyNone), db'))"
    by (simp add: table_exists_def)
next
  show "table_exists self schema n db = table_exists self schema (take 63 n) db"
    by (simp add: table_exists_def)
next
  assume "take 63 n = take 63 n'"
  then show "table_exists self schema n db = table_exists self schema n' db"
    by (simp add: table_exists_def)
next
  assume cat: "answers_from_catalog self db cat"
  obtain r db' where r: "run_sql self tables_query [PyStr schema, PyStr (take 63 n)] ONE_ONE db = (r, db')"
    by (cases "run_sql self tables_query [PyStr schema, PyStr (take 63 n)] ONE_ONE db")
  from cat have "fst (run_sql self tables_query [PyStr schema, PyStr (take 63 n)] ONE_ONE db) =
      Inr (if (schema, take 63 n) \<in> cat then PyStr (take 63 n) else PyNone)"
    unfolding answers_from_catalog_def by blast
  with r have "r = Inr (if (schema, take 63 n) \<in> cat then PyStr (take 63 n) else PyNone)"
    by simp
  with r show "fst (table_exists self schema n db) = Inr ((schema, take 63 n) \<in> cat)"
    by (simp add: table_exists_def)
qed

theorem table_exists_first_63_characters_witness:
  "answers_from_catalog memory_engine fruit_db (set (db_tables fruit_db)) \<and>
   fst (table_exists memory_engine ''public'' (replicate 63 CHR ''x'' @ ''yz'') fruit_db) = Inr True \<and>
   (''public'', replicate 63 CHR ''x'' @ ''yz'') \<notin> set (db_tables fruit_db) \<and>
   table_exists memory_engine ''public'' (replicate 63 CHR ''x'' @ ''yz'') fruit_db =
     table_exists memory_engine ''public'' (replicate 63 CHR ''x'' @ ''other'') fruit_db \<and>
   fst (table_exists memory_engine ''public'' ''fruits'' fruit_db) = Inr True \<and>
   fst (table_exists memory_engine ''public'' ''no_such_table'' fruit_db) = Inr False"
proof -
  let ?long = "replicate 63 CHR ''x'' @ ''yz''"
  let ?other = "replicate 63 CHR ''x'' @ ''other''"
  let ?cat = "set (db_tables fruit_db)"
  have a: "answers_from_catalog memory_engine fruit_db ?cat"
    by (simp add: answers_from_catalog_def memory_engine_def memory_run_sql_def)
  have t: "take 63 ?long = take 63 ?other"
    by simp
  have m: "((''public'', take 63 ?long) \<in> ?cat) = True"
    by (simp add: fruit_db_def)
  have n: "(''public'', ?long) \<notin> ?cat"
    by (simp add: fruit_db_def)
  have f: "((''public'', take 63 ''fruits'') \<in> ?cat) = True"
    by (simp add: fruit_db_def)
  have "length ''no_such_table'' \<noteq> length (replicate 63 CHR ''x'')"
    by simp
  then have "''no_such_table'' \<noteq> replicate 63 CHR ''x''"
    by (metis (no_types))
  then have g: "((''public'', take 63 ''no_such_table'') \<in> ?cat) = False"
    by (simp add: fruit_db_def)
  note th = table_exists_first_63_characters
    [where self = memory_engine and schema = "''public''" and db = fruit_db and cat = ?cat]
  from th [where n = ?long and n' = ?other] a
  have e: "fst (table_exists memory_engine ''public'' ?long fruit_db) =
      Inr ((''public'', take 63 ?long) \<in> ?cat)"
    by blast
  from th [where n = ?long and n' = ?other] t
  have i: "table_exists memory_engine ''public'' ?long fruit_db =
     table_exists memory_engine ''public'' ?other fruit_db"
    by blast
  from th [where n = "''fruits''" and n' = "''fruits''"] a
  have e1: "fst (table_exists memory_engine ''public'' ''fruits'' fruit_db) =
      Inr ((''public'', take 63 ''fruits'') \<in> ?cat)"
    by blast
  from th [where n = "''no_such_table''" and n' = "''fruits''"] a
  have e2: "fst (table_exists memory_engine ''public'' ''no_such_table'' fruit_db) =
      Inr ((''public'', take 63 ''no_such_table'') \<in> ?cat)"
    by blast
  from e have e': "fst (table_exists memory_engine ''public'' ?long fruit_db) = Inr True"
    by (simp only: m)
  from e1 have e1': "fst (table_exists memory_engine ''public'' ''fruits'' fruit_db) = Inr True"
    by (simp only: f)
  from e2 have e2': "fst (table_exists memory_engine ''public'' ''no_such_table'' fruit_db) = Inr False"
    by (simp only: g)
  from a e' n i e1' e2' show ?thesis by (intro conjI)
qed

subsection \<open>Engine.get_change_key\<close>

text \<open>
  C5. Change key selection: when \<^verbatim>\<open>get_primary_keys\<close> reports at least one primary-key
  column for the table, \<^verbatim>\<open>get_change_key\<close> returns exactly that list of (name, type)
  pairs; when it reports none, \<^verbatim>\<open>get_change_key\<close> is the outcome of the column query
  run with the schema and the table on the state the primary-key lookup left, so with an
  engine that answers that query from a catalog of columns it returns the (column name,
  column type) pairs of all the columns the catalog lists for the table.
\<close>

theorem get_change_key_primary_keys_or_all_columns:
  assumes "get_primary_keys self schema table db = (Inr (PyList pks), db')"
  shows "(pks \<noteq> [] \<longrightarrow> get_change_key self schema table db = (Inr (PyList pks), db')) \<and>
         (pks = [] \<longrightarrow> get_change_key self schema table db =
            run_sql self column_names_types_query [PyStr schema, PyStr table] MANY_MANY db') \<and>
         (pks = [] \<longrightarrow> answers_columns_from self db' cols \<longrightarrow>
            fst (get_change_key self schema table db) = Inr (columns_of cols schema table))"
  using assms by (simp add: get_change_key_def get_column_names_types_def answers_columns_from_def)

theorem get_change_key_primary_keys_or_all_columns_witness:
  "get_primary_keys memory_engine ''public'' ''fruits'' fruit_db =
     (Inr (PyList [PyTuple [PyStr ''fruit_id'', PyStr ''integer'']]), fruit_db) \<and>
   get_change_key memory_engine ''public'' ''fruits'' fruit_db =
     (Inr (PyList [PyTuple [PyStr ''fruit_id'', PyStr ''integer'']]), fruit_db) \<and>
   get_primary_keys memory_engine ''public'' ''vegetables'' fruit_db = (Inr (PyList []), fruit_db) \<and>
   answers_columns_from memory_engine fruit_db (db_columns fruit_db) \<and>
   fst (get_change_key memory_engine ''public'' ''vegetables'' fruit_db) =
     Inr (PyList [PyTuple [PyStr ''vegetable_id'', PyStr ''integer''],
                  PyTuple [PyStr ''name'', PyStr ''character varying'']])"
proof -
  have p1: "get_primary_keys memory_engine ''public'' ''fruits'' fruit_db =
     (Inr (PyList [PyTuple [PyStr ''fruit_id'', PyStr ''integer'']]), fruit_db)"
    by (simp add: memory_engine_def columns_of_def fruit_db_def)
  have p2: "get_primary_keys memory_engine ''public'' ''vegetables'' fruit_db = (Inr (PyList []), fruit_db)"
    by (simp add: memory_engine_def columns_of_def fruit_db_def)
  have a: "answers_columns_from memory_engine fruit_db (db_columns fruit_db)"
    by (simp add: answers_columns_from_def memory_engine_def memory_run_sql_def
        column_names_types_query_def tables_query_def)
  have c: "columns_of (db_columns fruit_db) ''public'' ''vegetables'' =
     PyList [PyTuple [PyStr ''vegetable_id'', PyStr ''integer''],
             PyTuple [PyStr ''name'', PyStr ''character varying'']]"
    by (simp add: columns_of_def fruit_db_def)
  from get_change_key_primary_keys_or_all_columns [OF p1, where cols = "db_columns fruit_db"]
  have k1: "get_change_key memory_engine ''public'' ''fruits'' fruit_db =
     (Inr (PyList [PyTuple [PyStr ''fruit_id'', PyStr ''integer'']]), fruit_db)"
    by simp
  from get_change_key_primary_keys_or_all_columns
    [OF p2, where cols = "db_columns fruit_db", THEN conjunct2, THEN conjunct2] a
  have k2: "fst (get_change_key memory_engine ''public'' ''vegetables'' fruit_db) =
     Inr (columns_of (db_columns fruit_db) ''public'' ''vegetables'')"
    by blast
  from p1 k1 p2 a k2 show ?thesis by (simp only: c simp_thms)
qed

subsection \<open>MongoDataSource.get_table_schema\<close>

text \<open>
  C9. Idempotent \<^verbatim>\<open>_id\<close> injection: for every non-empty table schema,
  \<^verbatim>\<open>get_table_schema\<close> returns the schema unchanged when some column is already named
  \<^verbatim>\<open>_id\<close>, and otherwise returns it with exactly one more column appended, named
  \<^verbatim>\<open>_id\<close>, of type \<^verbatim>\<open>NAME\<close>, not a primary key, at the ordinal after the last
  column's; applying the method to its own result returns that result again.
\<close>

theorem get_table_schema_injects_id_once:
  assumes "table_schema \<noteq> []"
  shows "((\<exists>c\<in>set table_schema. name c = ''_id'') \<longrightarrow>
            MongoDataSource_get_table_schema table_name table_schema = Inr table_schema) \<and>
         ((\<forall>c\<in>set table_schema. name c \<noteq> ''_id'') \<longrightarrow>
            MongoDataSource_get_table_schema table_name table_schema =
              Inr (table_schema @
                [\<lparr> ordinal = ordinal (last table_schema) + 1, name = ''_id'',
                   pg_type = ''NAME'', is_pk = False, comment = None \<rparr>])) \<and>
         (\<exists>s. MongoDataSource_get_table_schema table_name table_schema = Inr s \<and>
              MongoDataSource_get_table_schema table_name' s = Inr s)"
proof (cases "\<exists>c\<in>set table_schema. name c = ''_id''")
  case True
  then have "list_ex (\<lambda>c. name c = ''_id'') table_schema"
    by (simp add: list_ex_iff)
  then have "\<And>tn. MongoDataSource_get_table_schema tn table_schema = Inr table_schema"
    by (simp add: MongoDataSource_get_table_schema_def)
  with True show ?thesis by auto
next
  case False
  let ?col = "\<lparr> ordinal = ordinal (last table_schema) + 1, name = ''_id'',
                   pg_type = ''NAME'', is_pk = False, comment = None \<rparr>"
  from False have "\<not> list_ex (\<lambda>c. name c = ''_id'') table_schema"
    by (simp add: list_ex_iff)
  with assms have first: "MongoDataSource_get_table_schema table_name table_schema =
      Inr (table_schema @ [?col])"
    by (simp add: MongoDataSource_get_table_schema_def)
  have again: "MongoDataSource_get_table_schema table_name' (table_schema @ [?col]) =
      Inr (table_schema @ [?col])"
    by (simp add: MongoDataSource_get_table_schema_def)
  from False first again show ?thesis by simp
qed

theorem get_table_schema_injects_id_once_witness:
  "fruits_schema \<noteq> [] \<and>
   MongoDataSource_get_table_schema ''fruits'' fruits_schema =
     Inr (fruits_schema @
       [\<lparr> ordinal = 3, name = ''_id'', pg_type = ''NAME'', is_pk = False, comment = None \<rparr>]) \<and>
   MongoDataSource_get_table_schema ''fruits''
     (fruits_schema @
       [\<lparr> ordinal = 3, name = ''_id'', pg_type = ''NAME'', is_pk = False, comment = None \<rparr>]) =
     Inr (fruits_schema @
       [\<lparr> ordinal = 3, name = ''_id'', pg_type = ''NAME'', is_pk = False, comment = None \<rparr>])"
proof -
  have ne: "fruits_schema \<noteq> []"
    by (simp add: fruits_schema_def)
  have no_id: "\<forall>c\<in>set fruits_schema. name c \<noteq> ''_id''"
    by (simp add: fruits_schema_def)
  have ord: "ordinal (last fruits_schema) + 1 = 3"
    by (simp add: fruits_schema_def)
  note th = get_table_schema_injects_id_once [OF ne, of "''fruits''" "''fruits''"]
  from th no_id have first: "MongoDataSource_get_table_schema ''fruits'' fruits_schema =
      Inr (fruits_schema @
        [\<lparr> ordinal = ordinal (last fruits_schema) + 1, name = ''_id'', pg_type = ''NAME'',
           is_pk = False, comment = None \<rparr>])"
    by blast
  from th obtain s where "MongoDataSource_get_table_schema ''fruits'' fruits_schema = Inr s"
    and "MongoDataSource_get_table_schema ''fruits'' s = Inr s"
    by blast
  with first ne ord show ?thesis by simp
qed

subsection \<open>_make_changeset\<close>



















subsection \<open>CSVForeignDataWrapper.import_schema\<close>




















subsection \<open>Preprocessing of build scripts\<close>

lemma placeholder_at_placeholder:
  assumes "n \<noteq> []" and "CHR ''}'' \<notin> set n"
  shows "placeholder_at (''${'' @ n @ ''}'' @ rest) = Some (n, rest)"
proof -
  from assms(2) have "takeWhile (\<lambda>x. x \<noteq> CHR ''}'') (n @ CHR ''}'' # rest) = n"
    by (induction n) auto
  moreover from assms(2) have "dropWhile (\<lambda>x. x \<noteq> CHR ''}'') (n @ CHR ''}'' # rest) = CHR ''}'' # rest"
    by (induction n) auto
  ultimately show ?thesis
    using assms(1) by (simp add: placeholder_at_def)
qed

lemma pieces_placeholder:
  assumes "n \<noteq> []" and "CHR ''}'' \<notin> set n"
  shows "pieces (''${'' @ n @ ''}'' @ rest) = Placeholder n # pieces rest"
proof -
  have "pieces (CHR ''$'' # (''{'' @ n @ ''}'' @ rest)) = Placeholder n # pieces rest"
    using placeholder_at_placeholder [OF assms, of rest]
    by (subst pieces.simps) simp
  then show ?thesis by simp
qed

lemma pieces_escaped:
  assumes "n \<noteq> []" and "CHR ''}'' \<notin> set n"
  shows "pieces (CHR 0x5C # ''${'' @ n @ ''}'' @ rest) = Escaped n # pieces rest"
  using placeholder_at_placeholder [OF assms, of rest]
  by (subst pieces.simps) simp

lemma preprocess_eq:
  "preprocess script params =
     (if \<forall>n\<in>set (referenced (pieces script)). map_of params n \<noteq> None
      then Inr (concat (map (render params) (pieces script)))
      else Inl (remdups (filter (\<lambda>n. map_of params n = None) (referenced (pieces script)))))"
  by (auto simp: preprocess_def unbound_def filter_empty_conv)

lemma placeholder_at_Some:
  "placeholder_at s = Some (n, rest) \<longleftrightarrow>
     n \<noteq> [] \<and> CHR ''}'' \<notin> set n \<and> s = ''${'' @ n @ ''}'' @ rest"
proof
  assume p: "placeholder_at s = Some (n, rest)"
  then obtain r where s: "s = CHR ''$'' # CHR ''{'' # r"
    and n: "n = takeWhile (\<lambda>x. x \<noteq> CHR ''}'') r" and ne: "n \<noteq> []"
    and d: "dropWhile (\<lambda>x. x \<noteq> CHR ''}'') r \<noteq> []"
    and rest: "rest = tl (dropWhile (\<lambda>x. x \<noteq> CHR ''}'') r)"
    by (auto simp: placeholder_at_def split: list.splits if_splits)
  from d have "hd (dropWhile (\<lambda>x. x \<noteq> CHR ''}'') r) = CHR ''}''"
    using hd_dropWhile [of "\<lambda>x. x \<noteq> CHR ''}''" r] by simp
  with d rest have "dropWhile (\<lambda>x. x \<noteq> CHR ''}'') r = CHR ''}'' # rest"
    by (cases "dropWhile (\<lambda>x. x \<noteq> CHR ''}'') r") simp_all
  with n have "r = n @ CHR ''}'' # rest"
    using takeWhile_dropWhile_id [of "\<lambda>x. x \<noteq> CHR ''}''" r] by simp
  moreover from n have "CHR ''}'' \<notin> set n"
    by (auto dest: set_takeWhileD)
  ultimately show "n \<noteq> [] \<and> CHR ''}'' \<notin> set n \<and> s = ''${'' @ n @ ''}'' @ rest"
    using s ne by simp
next
  assume a: "n \<noteq> [] \<and> CHR ''}'' \<notin> set n \<and> s = ''${'' @ n @ ''}'' @ rest"
  then have "placeholder_at (''${'' @ n @ ''}'' @ rest) = Some (n, rest)"
    by (intro placeholder_at_placeholder) simp_all
  with a show "placeholder_at s = Some (n, rest)"
    by (simp only:)
qed

lemma placeholder_at_None:
  "placeholder_at s = None \<longleftrightarrow>
     \<not> (\<exists>n rest. n \<noteq> [] \<and> CHR ''}'' \<notin> set n \<and> s = ''${'' @ n @ ''}'' @ rest)"
proof -
  have "placeholder_at s \<noteq> None \<longleftrightarrow> (\<exists>n rest. placeholder_at s = Some (n, rest))"
    by auto
  then show ?thesis
    by (simp only: placeholder_at_Some) blast
qed

lemma pieces_text:
  assumes "\<not> (\<exists>n rest. n \<noteq> [] \<and> CHR ''}'' \<notin> set n \<and> c # s = ''${'' @ n @ ''}'' @ rest)"
      and "\<not> (c = CHR 0x5C \<and> (\<exists>n rest. n \<noteq> [] \<and> CHR ''}'' \<notin> set n \<and> s = ''${'' @ n @ ''}'' @ rest))"
  shows "pieces (c # s) = Text c # pieces s"
proof -
  from assms(1) have a: "placeholder_at (c # s) = None"
    by (rule placeholder_at_None [THEN iffD2])
  have b: "(if c = CHR 0x5C then placeholder_at s else None) = None"
  proof (cases "c = CHR 0x5C")
    case True
    with assms(2) have "\<not> (\<exists>n rest. n \<noteq> [] \<and> CHR ''}'' \<notin> set n \<and> s = ''${'' @ n @ ''}'' @ rest)"
      by (simp only: simp_thms)
    then have "placeholder_at s = None"
      by (rule placeholder_at_None [THEN iffD2])
    with True show ?thesis by simp
  next
    case False
    then show ?thesis by simp
  qed
  show ?thesis
    by (subst pieces.simps) (simp only: a b option.case)
qed

lemma pieces_plain:
  assumes "CHR ''$'' \<notin> set t" and "CHR 0x5C \<notin> set t"
  shows "pieces (t @ rest) = map Text t @ pieces rest"
  using assms
proof (induction t)
  case Nil
  show ?case by simp
next
  case (Cons c t)
  from Cons.prems have c: "c \<noteq> CHR ''$''" and b: "c \<noteq> CHR 0x5C" by auto
  from c have "\<not> (\<exists>n r. n \<noteq> [] \<and> CHR ''}'' \<notin> set n \<and> c # (t @ rest) = ''${'' @ n @ ''}'' @ r)"
    by auto
  moreover from b have "\<not> (c = CHR 0x5C \<and>
      (\<exists>n r. n \<noteq> [] \<and> CHR ''}'' \<notin> set n \<and> t @ rest = ''${'' @ n @ ''}'' @ r))"
    by simp
  ultimately have "pieces (c # (t @ rest)) = Text c # pieces (t @ rest)"
    by (rule pieces_text)
  with Cons show ?case by simp
qed

lemma distinct_singleton: "distinct xs \<Longrightarrow> set xs = {x} \<Longrightarrow> xs = [x]"
  by (cases xs; cases "tl xs") auto

text \<open>
  C4. Build-script preprocessing, for every script text and parameter binding. The pass
  fails if and only if at least one unescaped placeholder has no binding; the error
  then lists exactly the names of the unescaped placeholders without a binding, each
  once; on success the result is the script with every piece rendered. How a script is
  cut into pieces is fixed for every text: the empty text has none; a backslash before
  \<^verbatim>\<open>${NAME}\<close> makes an escaped piece, which is never among the referenced names and is
  written as \<^verbatim>\<open>${NAME}\<close>, without the backslash and unsubstituted; an unescaped
  \<^verbatim>\<open>${NAME}\<close> is a referenced name and is written as its bound value; any other
  character, wherever it stands, is a piece of text, written as it is, and the cutting
  goes on behind it, so a run of characters without \<^verbatim>\<open>$\<close> and backslash is copied and
  the placeholders behind it are found.
\<close>

theorem preprocess_substitutes_or_lists_unbound:
  "((\<exists>names. preprocess script params = Inl names) \<longleftrightarrow>
      (\<exists>n\<in>set (referenced (pieces script)). map_of params n = None)) \<and>
   (preprocess script params = Inl names \<longrightarrow>
      set names = {n \<in> set (referenced (pieces script)). map_of params n = None} \<and> distinct names) \<and>
   (preprocess script params = Inr out \<longrightarrow> out = concat (map (render params) (pieces script))) \<and>
   pieces [] = [] \<and>
   (n \<noteq> [] \<and> CHR ''}'' \<notin> set n \<longrightarrow>
      pieces (CHR 0x5C # ''${'' @ n @ ''}'' @ rest) = Escaped n # pieces rest \<and>
      pieces (''${'' @ n @ ''}'' @ rest) = Placeholder n # pieces rest) \<and>
   (\<not> (\<exists>m r. m \<noteq> [] \<and> CHR ''}'' \<notin> set m \<and> c # s = ''${'' @ m @ ''}'' @ r) \<and>
    \<not> (c = CHR 0x5C \<and> (\<exists>m r. m \<noteq> [] \<and> CHR ''}'' \<notin> set m \<and> s = ''${'' @ m @ ''}'' @ r)) \<longrightarrow>
      pieces (c # s) = Text c # pieces s) \<and>
   (CHR ''$'' \<notin> set t \<and> CHR 0x5C \<notin> set t \<longrightarrow> pieces (t @ rest) = map Text t @ pieces rest) \<and>
   referenced (Escaped n # ps) = referenced ps \<and>
   referenced (Text c # ps) = referenced ps \<and>
   referenced (Placeholder n # ps) = n # referenced ps \<and>
   render params (Escaped n) = ''${'' @ n @ ''}'' \<and>
   render params (Text c) = [c] \<and>
   (map_of params n = Some v \<longrightarrow> render params (Placeholder n) = v)"
proof -
  have fails: "(\<exists>names. preprocess script params = Inl names) \<longleftrightarrow>
      (\<exists>n\<in>set (referenced (pieces script)). map_of params n = None)"
    by (auto simp: preprocess_eq)
  have listed: "preprocess script params = Inl names \<longrightarrow>
      set names = {n \<in> set (referenced (pieces script)). map_of params n = None} \<and> distinct names"
    by (auto simp: preprocess_eq split: if_splits)
  have substituted: "preprocess script params = Inr out \<longrightarrow>
      out = concat (map (render params) (pieces script))"
    by (simp add: preprocess_eq split: if_splits)
  have empty: "pieces [] = []"
    by (simp add: pieces.simps)
  have shapes: "n \<noteq> [] \<and> CHR ''}'' \<notin> set n \<longrightarrow>
      pieces (CHR 0x5C # ''${'' @ n @ ''}'' @ rest) = Escaped n # pieces rest \<and>
      pieces (''${'' @ n @ ''}'' @ rest) = Placeholder n # pieces rest"
    using pieces_escaped [of n rest] pieces_placeholder [of n rest] by simp
  have text_char: "\<not> (\<exists>m r. m \<noteq> [] \<and> CHR ''}'' \<notin> set m \<and> c # s = ''${'' @ m @ ''}'' @ r) \<and>
    \<not> (c = CHR 0x5C \<and> (\<exists>m r. m \<noteq> [] \<and> CHR ''}'' \<notin> set m \<and> s = ''${'' @ m @ ''}'' @ r)) \<longrightarrow>
      pieces (c # s) = Text c # pieces s"
    using pieces_text [of c s] by (intro impI) (elim conjE)
  have plain: "CHR ''$'' \<notin> set t \<and> CHR 0x5C \<notin> set t \<longrightarrow> pieces (t @ rest) = map Text t @ pieces rest"
    using pieces_plain [of t rest] by simp
  have r1: "referenced (Escaped n # ps) = referenced ps" by simp
  have r2: "referenced (Text c # ps) = referenced ps" by simp
  have r3: "referenced (Placeholder n # ps) = n # referenced ps" by simp
  have d1: "render params (Escaped n) = ''${'' @ n @ ''}''" by simp
  have d2: "render params (Text c) = [c]" by simp
  have d3: "map_of params n = Some v \<longrightarrow> render params (Placeholder n) = v" by simp
  from fails listed substituted empty shapes text_char plain r1 r2 r3 d1 d2 d3 show ?thesis
    by (intro conjI)
qed

theorem preprocess_substitutes_or_lists_unbound_witness:
  "pieces import_line =
     map Text ''FROM test/pg_mount:'' @ Placeholder ''TAG'' #
     map Text '' IMPORT {SELECT '' @ Escaped ''ESCAPED'' # map Text ''} AS t'' \<and>
   preprocess import_line [] = Inl [''TAG''] \<and>
   ''ESCAPED'' \<notin> set (referenced (pieces import_line)) \<and>
   preprocess import_line [(''TAG'', ''tag-v1-whatever'')] =
     Inr ''FROM test/pg_mount:tag-v1-whatever IMPORT {SELECT ${ESCAPED}} AS t''"
proof -
  let ?t1 = "''FROM test/pg_mount:''" and ?t2 = "'' IMPORT {SELECT ''" and ?t3 = "''} AS t''"
  let ?bound = "[(''TAG'', ''tag-v1-whatever'')]"
  note th = preprocess_substitutes_or_lists_unbound
  have a: "pieces (?t1 @ ''${TAG}'' @ ?t2 @ CHR 0x5C # ''${ESCAPED}'' @ ?t3) =
      map Text ?t1 @ pieces (''${TAG}'' @ ?t2 @ CHR 0x5C # ''${ESCAPED}'' @ ?t3)"
    by (rule th [where t = ?t1, THEN conjunct2, THEN conjunct2, THEN conjunct2, THEN conjunct2,
          THEN conjunct2, THEN conjunct2, THEN conjunct1, THEN mp]) simp
  have b: "pieces (''${'' @ ''TAG'' @ ''}'' @ ?t2 @ CHR 0x5C # ''${ESCAPED}'' @ ?t3) =
      Placeholder ''TAG'' # pieces (?t2 @ CHR 0x5C # ''${ESCAPED}'' @ ?t3)"
    by (rule th [where n = "''TAG''", THEN conjunct2, THEN conjunct2, THEN conjunct2,
          THEN conjunct2, THEN conjunct1, THEN mp, THEN conjunct2]) simp
  have c: "pieces (?t2 @ CHR 0x5C # ''${ESCAPED}'' @ ?t3) =
      map Text ?t2 @ pieces (CHR 0x5C # ''${ESCAPED}'' @ ?t3)"
    by (rule th [where t = ?t2, THEN conjunct2, THEN conjunct2, THEN conjunct2, THEN conjunct2,
          THEN conjunct2, THEN conjunct2, THEN conjunct1, THEN mp]) simp
  have d: "pieces (CHR 0x5C # ''${'' @ ''ESCAPED'' @ ''}'' @ ?t3) = Escaped ''ESCAPED'' # pieces ?t3"
    by (rule th [where n = "''ESCAPED''", THEN conjunct2, THEN conjunct2, THEN conjunct2,
          THEN conjunct2, THEN conjunct1, THEN mp, THEN conjunct1]) simp
  have e: "pieces (?t3 @ []) = map Text ?t3 @ pieces []"
    by (rule th [where t = ?t3, THEN conjunct2, THEN conjunct2, THEN conjunct2, THEN conjunct2,
          THEN conjunct2, THEN conjunct2, THEN conjunct1, THEN mp]) simp
  have empty: "pieces [] = []"
    by (rule th [THEN conjunct2, THEN conjunct2, THEN conjunct2, THEN conjunct1])
  have p: "pieces import_line =
     map Text ?t1 @ Placeholder ''TAG'' # map Text ?t2 @ Escaped ''ESCAPED'' # map Text ?t3"
    using a b c d e empty by (simp add: import_line_def)
  have r: "referenced (pieces import_line) = [''TAG'']"
    by (simp add: p)
  from th [where script = import_line and params = "[]", THEN conjunct1] r
  obtain names where f: "preprocess import_line [] = Inl names"
    by auto
  from th [where script = import_line and params = "[]" and names = names,
      THEN conjunct2, THEN conjunct1] f r
  have "set names = {''TAG''}" and "distinct names"
    by auto
  then have "names = [''TAG'']"
    by (simp add: distinct_singleton)
  with f have failing: "preprocess import_line [] = Inl [''TAG'']"
    by simp
  from th [where script = import_line and params = ?bound, THEN conjunct1] r
  have "\<not> (\<exists>names. preprocess import_line ?bound = Inl names)"
    by simp
  then obtain out where o: "preprocess import_line ?bound = Inr out"
    by (cases "preprocess import_line ?bound") auto
  from th [where script = import_line and params = ?bound and out = out,
      THEN conjunct2, THEN conjunct2, THEN conjunct1] o
  have "out = concat (map (render ?bound) (pieces import_line))"
    by simp
  then have "out = ''FROM test/pg_mount:tag-v1-whatever IMPORT {SELECT ${ESCAPED}} AS t''"
    by (simp add: p)
  with o have success: "preprocess import_line ?bound =
      Inr ''FROM test/pg_mount:tag-v1-whatever IMPORT {SELECT ${ESCAPED}} AS t''"
    by simp
  from r have esc: "''ESCAPED'' \<notin> set (referenced (pieces import_line))"
    by simp
  from p failing esc success show ?thesis
    by (intro conjI)
qed


subsection \<open>Scenario A: two commits and their checkouts\<close>

text \<open>
  C2, as stated, fails at the root: the synthetic empty root holds no table, so checking
  it out materializes nothing. After the two commits the checkout of the root has no
  table \<^verbatim>\<open>my_fruits\<close> to read; it does not hold the table with no rows.
\<close>

theorem root_checkout_has_no_table:
  "map_sum id (\<lambda>r. rows_of r ''my_fruits'') (checkout RootHash second_commit) = Inr None \<and>
   map_sum id (\<lambda>r. rows_of r ''my_fruits'') (checkout RootHash second_commit) \<noteq> Inr (Some []) \<and>
   map_sum id (\<lambda>r. map fst (repo_checkout r)) (checkout RootHash second_commit) = Inr [] \<and>
   map img_tables (filter (\<lambda>i. img_hash i = RootHash) (repo_images second_commit)) = [[]]"
  by code_simp

text \<open>
  C2, amended. Scenario A: committing a tracked table holding the row (1, pineapple) and
  then the rows (1, pineapple), (2, banana) yields a repository of exactly three images
  whose history from \<^verbatim>\<open>HEAD\<close> is commit 2, commit 1 and the empty root. Checking out
  the root leaves the table absent; checking out commit 1 materializes it as the one
  row, and checking out commit 2 as the two rows, and in both the table is the only one
  of the checkout.
\<close>

theorem scenario_two_commits_three_images:
  "length (repo_images second_commit) = 3 \<and>
   map img_hash (get_log second_commit (HEAD second_commit)) =
     [HEAD second_commit, HEAD first_commit, RootHash] \<and>
   map img_comment (get_log second_commit (HEAD second_commit)) = [''commit 2'', ''commit 1'', []] \<and>
   distinct (map img_hash (repo_images second_commit)) \<and>
   map_sum id (\<lambda>r. rows_of r ''my_fruits'') (checkout RootHash second_commit) = Inr None \<and>
   map_sum id (\<lambda>r. rows_of r ''my_fruits'') (checkout (HEAD first_commit) second_commit) =
     Inr (Some [[PyInt 1, PyStr ''pineapple'']]) \<and>
   map_sum id (\<lambda>r. rows_of r ''my_fruits'') (checkout (HEAD second_commit) second_commit) =
     Inr (Some [[PyInt 1, PyStr ''pineapple''], [PyInt 2, PyStr ''banana'']]) \<and>
   map_sum id (\<lambda>r. map fst (repo_checkout r)) (checkout (HEAD first_commit) second_commit) =
     Inr [''my_fruits''] \<and>
   map_sum id (\<lambda>r. map fst (repo_checkout r)) (checkout (HEAD second_commit) second_commit) =
     Inr [''my_fruits'']"
  by code_simp

subsection \<open>Re-running a build script\<close>

lemma find_append_Some: "find P xs = Some x \<Longrightarrow> find P (xs @ ys) = Some x"
  by (induction xs) (auto split: if_splits)

lemma find_append_None: "find P xs = None \<Longrightarrow> find P (xs @ ys) = find P ys"
  by (induction xs) (auto split: if_splits)

lemma by_hash_append: "by_hash xs h \<noteq> None \<Longrightarrow> by_hash (xs @ ys) h \<noteq> None"
  by (auto simp: by_hash_def find_append_Some)

lemma build_has_key:
  assumes "build env cmd sources repo = Inr (i, new)"
  shows "has_key cmd (source_hashes sources) (HEAD repo) i"
  using assms
  by (cases cmd)
     (auto simp: build_def has_key_def new_image_def commit_image_def Let_def
           split: list.splits sum.splits prod.splits)

lemma step_failure_unchanged: "step env cmd repo = (Inl e, repo') \<Longrightarrow> repo' = repo"
  by (cases cmd) (auto simp: step_def split: sum.splits option.splits prod.splits)

lemma step_images_grow:
  "step env cmd repo = (r, repo') \<Longrightarrow> \<exists>added. repo_images repo' = repo_images repo @ added"
  by (cases cmd) (auto simp: step_def split: sum.splits option.splits prod.splits if_splits)

lemma execute_images_grow:
  "execute env cmds repo = (r, repo') \<Longrightarrow> \<exists>added. repo_images repo' = repo_images repo @ added"
proof (induction cmds arbitrary: repo)
  case Nil
  then show ?case by simp
next
  case (Cons cmd cmds)
  obtain r1 repo1 where s: "step env cmd repo = (r1, repo1)"
    by (cases "step env cmd repo")
  from step_images_grow [OF s] obtain a1 where a1: "repo_images repo1 = repo_images repo @ a1" ..
  show ?case
  proof (cases r1)
    case (Inl e)
    with Cons.prems s a1 show ?thesis by auto
  next
    case (Inr u)
    with Cons.prems s have "execute env cmds repo1 = (r, repo')" by simp
    from Cons.IH [OF this] obtain a2 where "repo_images repo' = repo_images repo1 @ a2" ..
    with a1 show ?thesis by simp
  qed
qed

lemma step_replay:
  assumes s: "step env cmd repo = (Inr u, repo1)"
      and grow: "repo_images final = repo_images repo1 @ added"
  shows "step env cmd (final\<lparr>HEAD := HEAD repo\<rparr>) = (Inr (), final\<lparr>HEAD := HEAD repo1\<rparr>)"
proof (cases cmd)
  case (FROM ref)
  with s obtain i where r: "resolve env ref = Inr i"
    and repo1: "repo1 = repo\<lparr>repo_images :=
                        (if by_hash (repo_images repo) (img_hash i) = None
                         then repo_images repo @ [i] else repo_images repo),
                     HEAD := img_hash i\<rparr>"
    by (auto simp: step_def split: sum.splits)
  from repo1 have "by_hash (repo_images repo1) (img_hash i) \<noteq> None"
    by (auto simp: by_hash_def find_append_None)
  with grow have "by_hash (repo_images final) (img_hash i) \<noteq> None"
    by (simp add: by_hash_append)
  with FROM r repo1 show ?thesis
    by (simp add: step_def)
next
  case (IMPORT ref ts)
  from s IMPORT have "\<exists>sources. resolve_sources env cmd = Inr sources"
    by (cases "resolve_sources env cmd") (auto simp: step_def)
  then obtain sources where src: "resolve_sources env cmd = Inr sources" ..
  let ?P = "has_key cmd (source_hashes sources) (HEAD repo)"
  have "\<exists>i. find ?P (repo_images repo1) = Some i \<and> HEAD repo1 = img_hash i"
  proof (cases "find ?P (repo_images repo)")
    case (Some i)
    with s IMPORT src have "repo1 = repo\<lparr>HEAD := img_hash i\<rparr>"
      by (simp add: step_def)
    with Some show ?thesis by simp
  next
    case None
    with s IMPORT src obtain i new where b: "build env cmd sources repo = Inr (i, new)"
      and "repo1 = repo\<lparr>repo_images := repo_images repo @ [i], HEAD := img_hash i,
                          repo_objects := add_objects (repo_objects repo) new\<rparr>"
      by (auto simp: step_def split: sum.splits)
    with None build_has_key [OF b] show ?thesis
      by (simp add: find_append_None)
  qed
  then obtain i where "find ?P (repo_images repo1) = Some i" and h: "HEAD repo1 = img_hash i"
    by blast
  with grow have "find ?P (repo_images final) = Some i"
    by (simp add: find_append_Some)
  with IMPORT src h show ?thesis
    by (simp add: step_def)
next
  case (SQL stmt)
  from s SQL have "\<exists>sources. resolve_sources env cmd = Inr sources"
    by (cases "resolve_sources env cmd") (auto simp: step_def)
  then obtain sources where src: "resolve_sources env cmd = Inr sources" ..
  let ?P = "has_key cmd (source_hashes sources) (HEAD repo)"
  have "\<exists>i. find ?P (repo_images repo1) = Some i \<and> HEAD repo1 = img_hash i"
  proof (cases "find ?P (repo_images repo)")
    case (Some i)
    with s SQL src have "repo1 = repo\<lparr>HEAD := img_hash i\<rparr>"
      by (simp add: step_def)
    with Some show ?thesis by simp
  next
    case None
    with s SQL src obtain i new where b: "build env cmd sources repo = Inr (i, new)"
      and "repo1 = repo\<lparr>repo_images := repo_images repo @ [i], HEAD := img_hash i,
                          repo_objects := add_objects (repo_objects repo) new\<rparr>"
      by (auto simp: step_def split: sum.splits)
    with None build_has_key [OF b] show ?thesis
      by (simp add: find_append_None)
  qed
  then obtain i where "find ?P (repo_images repo1) = Some i" and h: "HEAD repo1 = img_hash i"
    by blast
  with grow have "find ?P (repo_images final) = Some i"
    by (simp add: find_append_Some)
  with SQL src h show ?thesis
    by (simp add: step_def)
qed

text \<open>
  C1. Idempotent re-run: for every build script, environment of source images and
  starting state of the output repository, executing the script a second time from the
  same output \<^verbatim>\<open>HEAD\<close>, on the repository as the first run left it, ends as the first
  run did and leaves the repository as it was: no image is created, and the set of
  images after the second run is the set after the first.
\<close>

theorem rerun_creates_no_images:
  assumes "execute env script repo = (outcome, after)"
  shows "execute env script (after\<lparr>HEAD := HEAD repo\<rparr>) = (outcome, after) \<and>
         set (repo_images (snd (execute env script (after\<lparr>HEAD := HEAD repo\<rparr>)))) =
           set (repo_images after)"
proof -
  have "execute env script (after\<lparr>HEAD := HEAD repo\<rparr>) = (outcome, after)"
    using assms
  proof (induction script arbitrary: repo)
    case Nil
    then show ?case by auto
  next
    case (Cons cmd cmds)
    obtain r1 repo1 where s: "step env cmd repo = (r1, repo1)"
      by (cases "step env cmd repo")
    show ?case
    proof (cases r1)
      case (Inl e)
      with s have "repo1 = repo" by (simp add: step_failure_unchanged)
      with Inl s Cons.prems have "outcome = Inl e" and "after = repo" by simp_all
      with Inl s \<open>repo1 = repo\<close> show ?thesis by simp
    next
      case (Inr u)
      with s Cons.prems have rest: "execute env cmds repo1 = (outcome, after)" by simp
      from execute_images_grow [OF rest] obtain added
        where "repo_images after = repo_images repo1 @ added" ..
      with s Inr have "step env cmd (after\<lparr>HEAD := HEAD repo\<rparr>) = (Inr (), after\<lparr>HEAD := HEAD repo1\<rparr>)"
        by (simp add: step_replay)
      with Cons.IH [OF rest] show ?thesis by simp
    qed
  qed
  then show ?thesis by simp
qed

theorem rerun_creates_no_images_witness:
  "fst (execute fruit_env import_script output_repository) = Inr () \<and>
   length (repo_images (snd (execute fruit_env import_script output_repository))) = 2 \<and>
   execute fruit_env import_script
     ((snd (execute fruit_env import_script output_repository))\<lparr>HEAD := HEAD output_repository\<rparr>) =
     execute fruit_env import_script output_repository"
proof -
  obtain outcome repo' where e: "execute fruit_env import_script output_repository = (outcome, repo')"
    by (cases "execute fruit_env import_script output_repository")
  have ok: "fst (execute fruit_env import_script output_repository) = Inr ()"
    by code_simp
  have two: "length (repo_images (snd (execute fruit_env import_script output_repository))) = 2"
    by code_simp
  from rerun_creates_no_images [OF e]
  have "execute fruit_env import_script (repo'\<lparr>HEAD := HEAD output_repository\<rparr>) = (outcome, repo')"
    by (rule conjunct1)
  with e ok two show ?thesis by simp
qed

subsection \<open>Objects created by an import\<close>

lemma add_objects_Nil: "add_objects store [] = store"
  by (simp add: add_objects_def)










lemma captured_objects_without_query:
  "\<forall>t\<in>set ts. \<exists>n. fst t = Table n \<Longrightarrow> captured_objects env source ts = []"
  by (induction ts) (auto simp: captured_objects_def)





end
